theory Spec2Isabelle
  imports Main "HOL-Library.Sublist"
begin

section \<open>Python values used by app.py\<close>

text \<open>
  Python strings are modelled as HOL strings. \<open>str.lower()\<close> and \<open>str.upper()\<close> are
  modelled on the ASCII letters; every other character is left as it is.
\<close>

definition char_lower :: "char \<Rightarrow> char" where
  "char_lower c =
     (let n = (of_char c :: nat) in if 65 \<le> n \<and> n \<le> 90 then char_of (n + 32) else c)"

definition char_upper :: "char \<Rightarrow> char" where
  "char_upper c =
     (let n = (of_char c :: nat) in if 97 \<le> n \<and> n \<le> 122 then char_of (n - 32) else c)"

definition lower :: "string \<Rightarrow> string" where
  "lower s = map char_lower s"

definition upper :: "string \<Rightarrow> string" where
  "upper s = map char_upper s"

text \<open>
  An exception raised by an upstream library, an instance of \<open>Exception\<close>;
  \<open>str_of\<close> is what \<open>str(e)\<close> returns.
\<close>

datatype py_exception = PyException string

fun str_of :: "py_exception \<Rightarrow> string" where
  "str_of (PyException m) = m"

text \<open>The \<open>KeyError\<close> of a missing key \<open>k\<close>; its \<open>str\<close> is the key in single quotes.\<close>

definition key_error :: "string \<Rightarrow> py_exception" where
  "key_error k = PyException (CHR 0x27 # k @ [CHR 0x27])"

text \<open>
  \<open>os.getenv\<close> returns \<open>None\<close> or a string; Python's truth value of such a value
  is false for \<open>None\<close> and for the empty string.
\<close>

definition truthy :: "string option \<Rightarrow> bool" where
  "truthy v = (case v of None \<Rightarrow> False | Some s \<Rightarrow> s \<noteq> [])"

text \<open>
  The slice \<open>xs[:n]\<close> (also what \<open>DataFrame.head(n)\<close> keeps): the first \<open>n\<close>
  elements, and for a negative \<open>n\<close> everything but the last \<open>-n\<close> elements.
\<close>

definition slice_to :: "'a list \<Rightarrow> int \<Rightarrow> 'a list" where
  "slice_to xs n = (if 0 \<le> n then take (nat n) xs else take (length xs - nat (- n)) xs)"

section \<open>Process configuration and upstream services\<close>

record config =
  PEXELS_API_KEY :: "string option"
  REDDIT_CLIENT_ID :: "string option"
  REDDIT_CLIENT_SECRET :: "string option"
  REDDIT_USER_AGENT :: string

text \<open>A feed entry; a field the feed does not carry is \<open>None\<close>.\<close>

record feed_entry =
  entry_title :: "string option"
  entry_link :: "string option"
  entry_published :: "string option"

record reddit_post =
  post_title :: string
  post_url :: string

text \<open>
  One photo of the image provider's JSON answer; a key the answer does not carry is
  \<open>None\<close>, and reading it raises \<open>KeyError\<close>: \<open>photo_src\<close> is \<open>photo["src"]\<close>,
  \<open>src_large\<close> is the \<open>"large"\<close> entry of that, \<open>photographer_name\<close> is
  \<open>photo["photographer"]\<close>.
\<close>

record photo_sizes =
  src_large :: "string option"

record pexels_photo =
  photo_src :: "photo_sizes option"
  photographer_name :: "string option"

record http_response =
  status_code :: int
  text_body :: string
  json_photos :: "py_exception + pexels_photo list"

text \<open>
  The upstream libraries, each call returning its value or the exception it raises:
  \<open>feedparser.parse(url).entries\<close>; the first column of
  \<open>TrendReq().trending_searches(pn)\<close>; the posts of
  \<open>praw.Reddit(id, secret, agent).subreddit(name).hot(limit)\<close>; and
  \<open>requests.get\<close> on the image search with the key, the query and the orientation.
\<close>

record upstream =
  feedparser_parse :: "string \<Rightarrow> py_exception + feed_entry list"
  trending_searches :: "string \<Rightarrow> py_exception + string list"
  reddit_hot :: "string option \<Rightarrow> string option \<Rightarrow> string \<Rightarrow> string \<Rightarrow> int
                  \<Rightarrow> py_exception + reddit_post list"
  requests_get :: "string \<Rightarrow> string \<Rightarrow> string \<Rightarrow> py_exception + http_response"

text \<open>
  The calls a request handler makes, in the order it makes them: \<open>Invoke name\<close> is the
  call \<open>fn()\<close> that \<open>safe_call\<close> makes for the adapter \<open>name\<close>; the others are the
  calls of the upstream libraries, with the arguments that matter.
\<close>

datatype event =
    Invoke string
  | FeedParse string
  | TrendingSearches string
  | RedditHot string int
  | PexelsSearch string string

text \<open>What a handler raises: an \<open>HTTPException\<close>, or an exception it does not catch.\<close>

datatype handler_error = HTTPException int string | Unhandled py_exception

section \<open>Models of the request and response bodies\<close>

record ImageRequest =
  prompt :: string
  orientation :: string

record ImageResponse =
  image_success :: bool
  image_url :: string
  photographer :: string
  image_source :: string

record TrendingRequest =
  source :: string
  limit :: int
  country :: string
  language :: string
  subreddit :: string

record trend_item =
  title :: string
  link :: string
  published :: string

record source_result =
  result_source :: string
  items :: "trend_item list"
  warning :: "string option"

record source_error =
  error_source :: string
  error :: string

record TrendingResponse =
  success :: bool
  requested_source :: string
  response_limit :: int
  data :: "source_result list"
  errors :: "source_error list"

section \<open>The image endpoint\<close>

definition generate_image ::
  "config \<Rightarrow> upstream \<Rightarrow> ImageRequest \<Rightarrow> event list \<times> (handler_error + ImageResponse)" where
  "generate_image cfg up payload =
     (if \<not> truthy (PEXELS_API_KEY cfg) then
        ([], Inl (HTTPException 500 ''PEXELS_API_KEY missing in Render ENV''))
      else if prompt payload = [] then
        ([], Inl (HTTPException 400 ''Prompt is required''))
      else
        ([PexelsSearch (prompt payload) (orientation payload)],
         case requests_get up (the (PEXELS_API_KEY cfg)) (prompt payload) (orientation payload) of
           Inl e \<Rightarrow> Inl (HTTPException 500 (str_of e))
         | Inr response \<Rightarrow>
             if status_code response \<noteq> 200 then Inl (HTTPException 500 (text_body response))
             else
               (case json_photos response of
                  Inl e \<Rightarrow> Inl (Unhandled e)
                | Inr [] \<Rightarrow> Inl (HTTPException 404 ''No images found'')
                | Inr (photo # _) \<Rightarrow>
                    (case photo_src photo of
                       None \<Rightarrow> Inl (Unhandled (key_error ''src''))
                     | Some sizes \<Rightarrow>
                         (case src_large sizes of
                            None \<Rightarrow> Inl (Unhandled (key_error ''large''))
                          | Some url \<Rightarrow>
                              (case photographer_name photo of
                                 None \<Rightarrow> Inl (Unhandled (key_error ''photographer''))
                               | Some who \<Rightarrow>
                                   Inr \<lparr>image_success = True, image_url = url,
                                        photographer = who, image_source = ''pexels''\<rparr>))))))"

section \<open>The trend adapters\<close>

definition clamp_limit :: "int \<Rightarrow> int" where
  "clamp_limit n = max 1 (min n 10)"

definition item_of_entry :: "feed_entry \<Rightarrow> trend_item" where
  "item_of_entry entry =
     \<lparr>title = (case entry_title entry of Some t \<Rightarrow> t | None \<Rightarrow> ''''),
      link = (case entry_link entry of Some l \<Rightarrow> l | None \<Rightarrow> ''''),
      published = (case entry_published entry of Some p \<Rightarrow> p | None \<Rightarrow> '''')\<rparr>"

definition rss_top ::
  "upstream \<Rightarrow> string \<Rightarrow> int \<Rightarrow> event list \<times> (py_exception + trend_item list)" where
  "rss_top up rss_url lim =
     ([FeedParse rss_url],
      case feedparser_parse up rss_url of
        Inl e \<Rightarrow> Inl e
      | Inr entries \<Rightarrow> Inr (map item_of_entry (slice_to entries lim)))"

definition feed_result ::
  "string \<Rightarrow> event list \<times> (py_exception + trend_item list)
     \<Rightarrow> event list \<times> (py_exception + source_result)" where
  "feed_result name r =
     (fst r,
      case snd r of
        Inl e \<Rightarrow> Inl e
      | Inr its \<Rightarrow> Inr \<lparr>result_source = name, items = its, warning = None\<rparr>)"

definition google_news_url :: "string \<Rightarrow> string \<Rightarrow> string" where
  "google_news_url cntry lang =
     ''https://news.google.com/rss?hl='' @ lang @ ''-'' @ cntry @ ''&gl='' @ cntry
       @ ''&ceid='' @ cntry @ '':'' @ lang"

definition get_google_news ::
  "upstream \<Rightarrow> int \<Rightarrow> string \<Rightarrow> string \<Rightarrow> event list \<times> (py_exception + source_result)" where
  "get_google_news up lim cntry lang =
     feed_result ''google_news'' (rss_top up (google_news_url cntry lang) lim)"

definition get_reuters ::
  "upstream \<Rightarrow> int \<Rightarrow> event list \<times> (py_exception + source_result)" where
  "get_reuters up lim =
     feed_result ''reuters''
       (rss_top up ''https://www.reutersagency.com/feed/?best-topics=business-finance&post_type=best'' lim)"

definition get_flipboard ::
  "upstream \<Rightarrow> int \<Rightarrow> event list \<times> (py_exception + source_result)" where
  "get_flipboard up lim =
     feed_result ''flipboard'' (rss_top up ''https://flipboard.com/@news.rss'' lim)"

definition pn_map :: "(string \<times> string) list" where
  "pn_map =
     [(''IN'', ''india''), (''US'', ''united_states''), (''GB'', ''united_kingdom''),
      (''CA'', ''canada''), (''AU'', ''australia'')]"

text \<open>The local \<open>pn\<close> of \<open>get_google_trends\<close>: \<open>pn_map.get(country.upper(), "india")\<close>.\<close>

definition pn_of :: "string \<Rightarrow> string" where
  "pn_of cntry = (case map_of pn_map (upper cntry) of Some r \<Rightarrow> r | None \<Rightarrow> ''india'')"

definition term_item :: "string \<Rightarrow> trend_item" where
  "term_item t = \<lparr>title = t, link = '''', published = ''''\<rparr>"

definition get_google_trends ::
  "upstream \<Rightarrow> int \<Rightarrow> string \<Rightarrow> event list \<times> (py_exception + source_result)" where
  "get_google_trends up lim cntry =
     (let pn = pn_of cntry in
      ([TrendingSearches pn],
       case trending_searches up pn of
         Inl e \<Rightarrow> Inl e
       | Inr terms \<Rightarrow>
           Inr \<lparr>result_source = ''google_trends'',
                items = map term_item (slice_to terms lim),
                warning = None\<rparr>))"

definition post_item :: "reddit_post \<Rightarrow> trend_item" where
  "post_item post = \<lparr>title = post_title post, link = post_url post, published = ''''\<rparr>"

definition get_reddit ::
  "config \<Rightarrow> upstream \<Rightarrow> int \<Rightarrow> string \<Rightarrow> event list \<times> (py_exception + source_result)" where
  "get_reddit cfg up lim subreddit_name =
     (if \<not> (truthy (REDDIT_CLIENT_ID cfg) \<and> truthy (REDDIT_CLIENT_SECRET cfg)) then
        ([], Inr \<lparr>result_source = ''reddit'', items = [],
                  warning = Some ''Reddit keys missing''\<rparr>)
      else
        ([RedditHot subreddit_name lim],
         case reddit_hot up (REDDIT_CLIENT_ID cfg) (REDDIT_CLIENT_SECRET cfg)
                (REDDIT_USER_AGENT cfg) subreddit_name lim of
           Inl e \<Rightarrow> Inl e
         | Inr posts \<Rightarrow>
             Inr \<lparr>result_source = ''reddit'', items = map post_item posts, warning = None\<rparr>))"

section \<open>The trending endpoint\<close>

text \<open>The two lists the handler appends to, and the calls made so far.\<close>

record fanout =
  results :: "source_result list"
  errors_so_far :: "source_error list"
  calls :: "event list"

definition safe_call ::
  "(unit \<Rightarrow> event list \<times> (py_exception + source_result)) \<Rightarrow> string \<Rightarrow> fanout \<Rightarrow> fanout" where
  "safe_call fn name st =
     (case fn () of
        (evs, Inr r) \<Rightarrow> st\<lparr>results := results st @ [r], calls := calls st @ Invoke name # evs\<rparr>
      | (evs, Inl e) \<Rightarrow>
          st\<lparr>errors_so_far := errors_so_far st @ [\<lparr>error_source = name, error = str_of e\<rparr>],
             calls := calls st @ Invoke name # evs\<rparr>)"

definition allowed :: "string set" where
  "allowed = {''all'', ''google_trends'', ''google_news'', ''reddit'', ''reuters'', ''flipboard''}"

definition trending ::
  "config \<Rightarrow> upstream \<Rightarrow> TrendingRequest \<Rightarrow> event list \<times> (handler_error + TrendingResponse)" where
  "trending cfg up payload =
     (let lim = clamp_limit (limit payload);
          src = lower (source payload)
      in
        if src \<notin> allowed then ([], Inl (HTTPException 400 ''Invalid source''))
        else
          let st0 = \<lparr>results = [], errors_so_far = [], calls = []\<rparr>;
              st1 = (if src \<in> {''all'', ''google_trends''}
                     then safe_call (\<lambda>_. get_google_trends up lim (country payload))
                            ''google_trends'' st0
                     else st0);
              st2 = (if src \<in> {''all'', ''google_news''}
                     then safe_call (\<lambda>_. get_google_news up lim (country payload) (language payload))
                            ''google_news'' st1
                     else st1);
              st3 = (if src \<in> {''all'', ''reddit''}
                     then safe_call (\<lambda>_. get_reddit cfg up lim (subreddit payload)) ''reddit'' st2
                     else st2);
              st4 = (if src \<in> {''all'', ''reuters''}
                     then safe_call (\<lambda>_. get_reuters up lim) ''reuters'' st3
                     else st3);
              st5 = (if src \<in> {''all'', ''flipboard''}
                     then safe_call (\<lambda>_. get_flipboard up lim) ''flipboard'' st4
                     else st4)
          in (calls st5,
              Inr \<lparr>success = True, requested_source = src, response_limit = lim,
                   data = results st5, errors = errors_so_far st5\<rparr>))"

section \<open>The fan-out, adapter by adapter\<close>

text \<open>
  The order in which the handler's five \<open>if\<close> statements stand, the test each of them
  makes, and the call each of them hands to \<open>safe_call\<close>.
\<close>

definition adapter_order :: "string list" where
  "adapter_order = [''google_trends'', ''google_news'', ''reddit'', ''reuters'', ''flipboard'']"

definition selected :: "string \<Rightarrow> string \<Rightarrow> bool" where
  "selected src name = (src = ''all'' \<or> src = name)"

definition adapter_call ::
  "config \<Rightarrow> upstream \<Rightarrow> TrendingRequest \<Rightarrow> string \<Rightarrow> event list \<times> (py_exception + source_result)" where
  "adapter_call cfg up payload name =
     (let lim = clamp_limit (limit payload) in
      if name = ''google_trends'' then get_google_trends up lim (country payload)
      else if name = ''google_news'' then get_google_news up lim (country payload) (language payload)
      else if name = ''reddit'' then get_reddit cfg up lim (subreddit payload)
      else if name = ''reuters'' then get_reuters up lim
      else get_flipboard up lim)"

text \<open>The same five calls, with the limit they are handed written as a parameter.\<close>

definition adapter_with_limit ::
  "config \<Rightarrow> upstream \<Rightarrow> TrendingRequest \<Rightarrow> int \<Rightarrow> string
     \<Rightarrow> event list \<times> (py_exception + source_result)" where
  "adapter_with_limit cfg up payload lim name =
     (if name = ''google_trends'' then get_google_trends up lim (country payload)
      else if name = ''google_news'' then get_google_news up lim (country payload) (language payload)
      else if name = ''reddit'' then get_reddit cfg up lim (subreddit payload)
      else if name = ''reuters'' then get_reuters up lim
      else get_flipboard up lim)"

definition data_of :: "py_exception + source_result \<Rightarrow> source_result list" where
  "data_of out = (case out of Inr r \<Rightarrow> [r] | Inl e \<Rightarrow> [])"

definition errors_of :: "string \<Rightarrow> py_exception + source_result \<Rightarrow> source_error list" where
  "errors_of name out =
     (case out of Inl e \<Rightarrow> [\<lparr>error_source = name, error = str_of e\<rparr>] | Inr r \<Rightarrow> [])"

fun invoked :: "event list \<Rightarrow> string list" where
  "invoked [] = []"
| "invoked (Invoke n # evs) = n # invoked evs"
| "invoked (_ # evs) = invoked evs"

section \<open>Sample configurations, upstreams and requests\<close>

definition no_keys :: config where
  "no_keys =
     \<lparr>PEXELS_API_KEY = None, REDDIT_CLIENT_ID = None, REDDIT_CLIENT_SECRET = None,
      REDDIT_USER_AGENT = ''scripts-bot''\<rparr>"

definition all_keys :: config where
  "all_keys =
     \<lparr>PEXELS_API_KEY = Some ''key'', REDDIT_CLIENT_ID = Some ''id'',
      REDDIT_CLIENT_SECRET = Some ''secret'', REDDIT_USER_AGENT = ''scripts-bot''\<rparr>"

text \<open>An upstream where every call raises.\<close>

definition failing_upstream :: upstream where
  "failing_upstream =
     \<lparr>feedparser_parse = (\<lambda>url. Inl (PyException ''timeout'')),
      trending_searches = (\<lambda>pn. Inl (PyException ''timeout'')),
      reddit_hot = (\<lambda>cid secret agent name lim. Inl (PyException ''timeout'')),
      requests_get = (\<lambda>key query orient. Inl (PyException ''timeout''))\<rparr>"

text \<open>An upstream where the feeds raise and the other services answer.\<close>

definition sample_upstream :: upstream where
  "sample_upstream =
     \<lparr>feedparser_parse = (\<lambda>url. Inl (PyException ''bad feed'')),
      trending_searches = (\<lambda>pn. Inr [''alpha'', ''beta'', ''gamma'']),
      reddit_hot = (\<lambda>cid secret agent name lim.
         Inr [\<lparr>post_title = ''post'', post_url = ''http://r''\<rparr>]),
      requests_get = (\<lambda>key query orient. Inl (PyException ''timeout''))\<rparr>"

text \<open>A request body with the model's defaults for the fields not given.\<close>

definition default_request :: "string \<Rightarrow> int \<Rightarrow> TrendingRequest" where
  "default_request src n =
     \<lparr>source = src, limit = n, country = ''IN'', language = ''en'', subreddit = ''all''\<rparr>"

section \<open>Auxiliary facts\<close>

lemma safe_call_eq:
  "safe_call fn name st =
     st\<lparr>results := results st @ data_of (snd (fn ())),
        errors_so_far := errors_so_far st @ errors_of name (snd (fn ())),
        calls := calls st @ Invoke name # fst (fn ())\<rparr>"
  by (cases "fn ()"; cases "snd (fn ())") (simp_all add: safe_call_def data_of_def errors_of_def)

lemma allowed_cases:
  "s \<in> allowed \<Longrightarrow> s = ''all'' \<or> s \<in> set adapter_order"
  by (auto simp: allowed_def adapter_order_def)

lemma trending_allowed:
  assumes "lower (source p) \<in> allowed"
  shows "trending cfg up p =
     (concat (map (\<lambda>n. Invoke n # fst (adapter_call cfg up p n))
        (filter (selected (lower (source p))) adapter_order)),
      Inr \<lparr>success = True, requested_source = lower (source p),
           response_limit = clamp_limit (limit p),
           data = concat (map (\<lambda>n. data_of (snd (adapter_call cfg up p n)))
                    (filter (selected (lower (source p))) adapter_order)),
           errors = concat (map (\<lambda>n. errors_of n (snd (adapter_call cfg up p n)))
                    (filter (selected (lower (source p))) adapter_order))\<rparr>)"
proof -
  from assms have "lower (source p) = ''all'' \<or> lower (source p) = ''google_trends''
     \<or> lower (source p) = ''google_news'' \<or> lower (source p) = ''reddit''
     \<or> lower (source p) = ''reuters'' \<or> lower (source p) = ''flipboard''"
    by (simp add: allowed_def)
  then show ?thesis
    by (elim disjE)
      (simp_all add: trending_def Let_def safe_call_eq selected_def adapter_order_def
        adapter_call_def allowed_def)
qed

lemma char_upper_cases:
  "char_upper c = c \<or>
   (97 \<le> (of_char c :: nat) \<and> (of_char c :: nat) \<le> 122 \<and>
    char_upper c = char_of ((of_char c :: nat) - 32))"
  unfolding char_upper_def Let_def by (rule if_split [THEN iffD2]) blast

lemma char_upper_fixed:
  assumes "\<not> 97 \<le> (of_char c :: nat)"
  shows "char_upper c = c"
  using assms by (simp add: char_upper_def Let_def)

lemma char_upper_idem: "char_upper (char_upper c) = char_upper c"
proof -
  from char_upper_cases [of c] show ?thesis
  proof
    assume "char_upper c = c"
    then show ?thesis by simp
  next
    assume a: "97 \<le> (of_char c :: nat) \<and> (of_char c :: nat) \<le> 122 \<and>
      char_upper c = char_of ((of_char c :: nat) - 32)"
    then have "((of_char c :: nat) - 32) mod 256 = of_char c - 32"
      by (intro mod_less) arith
    moreover have "(of_char c :: nat) - 32 < 97"
      using a by arith
    ultimately have "\<not> 97 \<le> (of_char (char_upper c) :: nat)"
      using a by simp
    then show ?thesis
      by (rule char_upper_fixed)
  qed
qed

lemma upper_idem: "upper (upper s) = upper s"
  by (simp add: upper_def char_upper_idem)



lemma invoked_append: "invoked (xs @ ys) = invoked xs @ invoked ys"
  by (induction xs rule: invoked.induct) simp_all

lemma adapter_call_source:
  assumes "n \<in> set adapter_order" and "snd (adapter_call cfg up p n) = Inr r"
  shows "result_source r = n"
  using assms
  by (auto simp: adapter_order_def adapter_call_def Let_def get_google_trends_def
      get_google_news_def get_reddit_def get_reuters_def get_flipboard_def feed_result_def
      split: sum.splits if_splits)

lemma adapter_call_invoked: "invoked (fst (adapter_call cfg up p n)) = []"
  by (simp add: adapter_call_def Let_def get_google_trends_def get_google_news_def
      get_reddit_def get_reuters_def get_flipboard_def feed_result_def rss_top_def)

lemma data_names:
  assumes "\<forall>n \<in> set ns. \<forall>r. f n = Inr r \<longrightarrow> result_source r = n"
  shows "map result_source (concat (map (\<lambda>n. data_of (f n)) ns)) = filter (\<lambda>n. \<not> isl (f n)) ns"
  using assms by (induction ns) (auto simp: data_of_def split: sum.splits)

lemma error_names:
  "map error_source (concat (map (\<lambda>n. errors_of n (f n)) ns)) = filter (\<lambda>n. isl (f n)) ns"
  by (induction ns) (auto simp: errors_of_def split: sum.splits)

lemma invoked_names:
  assumes "\<And>n. invoked (g n) = []"
  shows "invoked (concat (map (\<lambda>n. Invoke n # g n) ns)) = ns"
  using assms by (induction ns) (simp_all add: invoked_append)

lemma data_entry:
  assumes "\<forall>m \<in> set ns. \<forall>r. f m = Inr r \<longrightarrow> result_source r = m"
    and "distinct ns" and "n \<in> set ns"
  shows "filter (\<lambda>x. result_source x = n) (concat (map (\<lambda>m. data_of (f m)) ns)) = data_of (f n)"
  using assms
proof (induction ns)
  case Nil
  then show ?case by simp
next
  case (Cons m ns)
  have other: "filter (\<lambda>x. result_source x = n) (concat (map (\<lambda>m. data_of (f m)) ns)) = []"
    if "n \<notin> set ns"
  proof -
    have "n \<notin> set (map result_source (concat (map (\<lambda>m. data_of (f m)) ns)))"
      using that Cons.prems(1) by (simp add: data_names)
    then show ?thesis
      by (auto simp: filter_empty_conv)
  qed
  show ?case
  proof (cases "n = m")
    case True
    then have "n \<notin> set ns" using Cons.prems(2) by simp
    from other [OF this] True Cons.prems(1) show ?thesis
      by (auto simp: data_of_def split: sum.splits)
  next
    case False
    then have "n \<in> set ns" using Cons.prems(3) by simp
    moreover have "filter (\<lambda>x. result_source x = n) (data_of (f m)) = []"
      using False Cons.prems(1) by (auto simp: data_of_def split: sum.splits)
    ultimately show ?thesis
      using Cons by simp
  qed
qed

lemma error_entry:
  assumes "distinct ns" and "n \<in> set ns"
  shows "filter (\<lambda>x. error_source x = n) (concat (map (\<lambda>m. errors_of m (f m)) ns)) = errors_of n (f n)"
  using assms
proof (induction ns)
  case Nil
  then show ?case by simp
next
  case (Cons m ns)
  have other: "filter (\<lambda>x. error_source x = n) (concat (map (\<lambda>m. errors_of m (f m)) ns)) = []"
    if "n \<notin> set ns"
  proof -
    have "n \<notin> set (map error_source (concat (map (\<lambda>m. errors_of m (f m)) ns)))"
      using that by (simp add: error_names)
    then show ?thesis
      by (auto simp: filter_empty_conv)
  qed
  show ?case
  proof (cases "n = m")
    case True
    then have "n \<notin> set ns" using Cons.prems(1) by simp
    from other [OF this] True show ?thesis
      by (auto simp: errors_of_def split: sum.splits)
  next
    case False
    then have "n \<in> set ns" using Cons.prems(2) by simp
    moreover have "filter (\<lambda>x. error_source x = n) (errors_of m (f m)) = []"
      using False by (auto simp: errors_of_def split: sum.splits)
    ultimately show ?thesis
      using Cons by simp
  qed
qed

lemma distinct_adapter_order: "distinct adapter_order"
  by (simp add: adapter_order_def)

lemma lower_samples:
  "lower ''all'' = ''all''" "lower ''ReDdIt'' = ''reddit''" "lower ''reddit'' = ''reddit''"
  "lower ''twitter'' = ''twitter''" "lower ''Google_Trends'' = ''google_trends''"
  by (simp_all add: lower_def char_lower_def char_of_eq_iff)

lemma upper_samples:
  "upper ''IN'' = ''IN''" "upper ''US'' = ''US''" "upper ''GB'' = ''GB''" "upper ''CA'' = ''CA''"
  "upper ''AU'' = ''AU''" "upper ''us'' = ''US''" "upper ''ZZ'' = ''ZZ''"
  by (simp_all add: upper_def char_upper_def char_of_eq_iff)

lemma trending_rejected:
  "lower (source p) \<notin> allowed \<Longrightarrow>
     trending cfg up p = ([], Inl (HTTPException 400 ''Invalid source''))"
  by (simp add: trending_def Let_def)

lemma failing_upstream_fails:
  "isl (snd (adapter_call cfg failing_upstream p n)) \<or> (n = ''reddit'' \<and>
     \<not> (truthy (REDDIT_CLIENT_ID cfg) \<and> truthy (REDDIT_CLIENT_SECRET cfg)))"
  by (simp add: adapter_call_def Let_def get_google_trends_def get_google_news_def
      get_reddit_def get_reuters_def get_flipboard_def feed_result_def rss_top_def
      failing_upstream_def)

lemma pn_of_table:
  "pn_of ''IN'' = ''india''" "pn_of ''US'' = ''united_states''"
  "pn_of ''GB'' = ''united_kingdom''" "pn_of ''CA'' = ''canada''"
  "pn_of ''AU'' = ''australia''" "pn_of ''us'' = ''united_states''" "pn_of ''ZZ'' = ''india''"
  by (simp_all add: pn_of_def pn_map_def upper_samples)

lemma pn_of_miss:
  assumes "upper c \<notin> fst ` set pn_map"
  shows "pn_of c = ''india''"
proof -
  from assms have "map_of pn_map (upper c) = None"
    by (simp add: map_of_eq_None_iff)
  then show ?thesis
    by (simp add: pn_of_def)
qed

lemma pn_of_hit: "map_of pn_map (upper c) = Some r \<Longrightarrow> pn_of c = r"
  by (simp add: pn_of_def)

lemma slice_to_take: "0 \<le> n \<Longrightarrow> slice_to xs n = take (nat n) xs"
  by (simp add: slice_to_def)

lemma sample_outcomes:
  "snd (adapter_call all_keys sample_upstream (default_request src 2) ''google_trends'') =
     Inr \<lparr>result_source = ''google_trends'',
          items = [term_item ''alpha'', term_item ''beta''], warning = None\<rparr>"
  "snd (adapter_call all_keys sample_upstream (default_request src 2) ''google_news'') =
     Inl (PyException ''bad feed'')"
  "snd (adapter_call all_keys sample_upstream (default_request src 2) ''reddit'') =
     Inr \<lparr>result_source = ''reddit'',
          items = [\<lparr>title = ''post'', link = ''http://r'', published = ''''\<rparr>],
          warning = None\<rparr>"
  "snd (adapter_call all_keys sample_upstream (default_request src 2) ''reuters'') =
     Inl (PyException ''bad feed'')"
  "snd (adapter_call all_keys sample_upstream (default_request src 2) ''flipboard'') =
     Inl (PyException ''bad feed'')"
  by (simp_all add: adapter_call_def default_request_def clamp_limit_def Let_def
      get_google_trends_def get_google_news_def get_reddit_def get_reuters_def
      get_flipboard_def feed_result_def rss_top_def sample_upstream_def all_keys_def
      truthy_def slice_to_def post_item_def)

lemma sample_all_allowed: "lower (source (default_request ''all'' n)) \<in> allowed"
  by (simp add: default_request_def lower_samples allowed_def)

lemma sample_all_response:
  "trending all_keys sample_upstream (default_request ''all'' 2) =
     ([Invoke ''google_trends'', TrendingSearches ''india'',
       Invoke ''google_news'',
       FeedParse ''https://news.google.com/rss?hl=en-IN&gl=IN&ceid=IN:en'',
       Invoke ''reddit'', RedditHot ''all'' 2,
       Invoke ''reuters'',
       FeedParse ''https://www.reutersagency.com/feed/?best-topics=business-finance&post_type=best'',
       Invoke ''flipboard'', FeedParse ''https://flipboard.com/@news.rss''],
      Inr \<lparr>success = True, requested_source = ''all'', response_limit = 2,
           data = [\<lparr>result_source = ''google_trends'',
                     items = [term_item ''alpha'', term_item ''beta''], warning = None\<rparr>,
                   \<lparr>result_source = ''reddit'',
                     items = [\<lparr>title = ''post'', link = ''http://r'', published = ''''\<rparr>],
                     warning = None\<rparr>],
           errors = [\<lparr>error_source = ''google_news'', error = ''bad feed''\<rparr>,
                     \<lparr>error_source = ''reuters'', error = ''bad feed''\<rparr>,
                     \<lparr>error_source = ''flipboard'', error = ''bad feed''\<rparr>]\<rparr>)"
  by (simp add: trending_def default_request_def lower_samples allowed_def clamp_limit_def
      Let_def safe_call_def get_google_trends_def get_google_news_def get_reddit_def
      get_reuters_def get_flipboard_def feed_result_def rss_top_def sample_upstream_def
      all_keys_def truthy_def slice_to_def post_item_def pn_of_table google_news_url_def)

lemma selected_sources:
  "\<forall>n \<in> set (filter (selected src) adapter_order).
     \<forall>r. snd (adapter_call cfg up p n) = Inr r \<longrightarrow> result_source r = n"
  by (auto dest: adapter_call_source)

lemma selected_count:
  assumes "src \<in> allowed"
  shows "length (filter (selected src) adapter_order) = (if src = ''all'' then 5 else 1)"
  using allowed_cases [OF assms]
  by (auto simp: selected_def adapter_order_def)

lemma selected_filter:
  "filter (selected src) adapter_order = filter (\<lambda>n. src = ''all'' \<or> src = n) adapter_order"
  by (simp add: selected_def [abs_def])

lemma safe_call_raised:
  "fn () = (evs, Inl e) \<Longrightarrow>
     safe_call fn name st =
       st\<lparr>errors_so_far := errors_so_far st @ [\<lparr>error_source = name, error = str_of e\<rparr>],
          calls := calls st @ Invoke name # evs\<rparr>"
  by (simp add: safe_call_def)

lemma safe_call_returned:
  "fn () = (evs, Inr r) \<Longrightarrow>
     safe_call fn name st =
       st\<lparr>results := results st @ [r], calls := calls st @ Invoke name # evs\<rparr>"
  by (simp add: safe_call_def)

lemma adapter_call_limit:
  "adapter_call cfg up p n = adapter_with_limit cfg up p (max 1 (min (limit p) 10)) n"
  by (simp add: adapter_call_def adapter_with_limit_def Let_def clamp_limit_def)

lemma trending_single:
  assumes "n \<in> set adapter_order" and "lower (source p) = n"
  shows "trending cfg up p =
     (Invoke n # fst (adapter_call cfg up p n),
      Inr \<lparr>success = True, requested_source = n, response_limit = clamp_limit (limit p),
           data = data_of (snd (adapter_call cfg up p n)),
           errors = errors_of n (snd (adapter_call cfg up p n))\<rparr>)"
proof -
  have ok: "lower (source p) \<in> allowed"
    using assms by (auto simp: allowed_def adapter_order_def)
  have "n \<noteq> ''all''"
    using assms(1) by (auto simp: adapter_order_def)
  then have "filter (selected (lower (source p))) adapter_order = filter (\<lambda>m. n = m) adapter_order"
    by (simp add: selected_def [abs_def] assms(2))
  also have "\<dots> = [n]"
    using assms(1) by (auto simp: adapter_order_def)
  finally show ?thesis
    by (simp add: trending_allowed [OF ok] assms(2))
qed

lemma sample_zero_response:
  "trending all_keys sample_upstream (default_request ''all'' 0) =
     ([Invoke ''google_trends'', TrendingSearches ''india'',
       Invoke ''google_news'',
       FeedParse ''https://news.google.com/rss?hl=en-IN&gl=IN&ceid=IN:en'',
       Invoke ''reddit'', RedditHot ''all'' 1,
       Invoke ''reuters'',
       FeedParse ''https://www.reutersagency.com/feed/?best-topics=business-finance&post_type=best'',
       Invoke ''flipboard'', FeedParse ''https://flipboard.com/@news.rss''],
      Inr \<lparr>success = True, requested_source = ''all'', response_limit = 1,
           data = [\<lparr>result_source = ''google_trends'',
                     items = [\<lparr>title = ''alpha'', link = '''', published = ''''\<rparr>],
                     warning = None\<rparr>,
                   \<lparr>result_source = ''reddit'',
                     items = [\<lparr>title = ''post'', link = ''http://r'', published = ''''\<rparr>],
                     warning = None\<rparr>],
           errors = [\<lparr>error_source = ''google_news'', error = ''bad feed''\<rparr>,
                     \<lparr>error_source = ''reuters'', error = ''bad feed''\<rparr>,
                     \<lparr>error_source = ''flipboard'', error = ''bad feed''\<rparr>]\<rparr>)"
  by (simp add: trending_def default_request_def lower_samples allowed_def clamp_limit_def
      Let_def safe_call_def get_google_trends_def get_google_news_def get_reddit_def
      get_reuters_def get_flipboard_def feed_result_def rss_top_def sample_upstream_def
      all_keys_def truthy_def slice_to_def post_item_def term_item_def pn_of_table
      google_news_url_def)

section \<open>Claims about the request validator\<close>

text \<open>
  C3. For every integer limit \<open>n\<close> the limit used by the trending endpoint, which is also
  the \<open>limit\<close> field of its response, is \<open>max(1, min(n, 10))\<close>: 0 gives 1, 5 gives 5,
  999 gives 10 and -3 gives 1. The handler behaves on a request as it does on the same
  request with the clamped limit, and whether it raises depends on the source alone, never
  on the limit. Every adapter the handler calls is handed exactly the clamped limit: the
  calls, the results and the errors of an accepted request are those of the selected
  adapters run with \<open>max(1, min(n, 10))\<close>, for the source \<open>all\<close> and for each single
  source; the structured-trends result then holds the first \<open>max(1, min(n, 10))\<close> terms.
\<close>

theorem clamp_limit_spec:
  "clamp_limit n = max 1 (min n 10)
   \<and> clamp_limit 0 = 1 \<and> clamp_limit 5 = 5 \<and> clamp_limit 999 = 10 \<and> clamp_limit (- 3) = 1
   \<and> (lower (source p) \<in> allowed \<longrightarrow>
        (\<exists>r. snd (trending cfg up p) = Inr r \<and> response_limit r = max 1 (min (limit p) 10)))
   \<and> trending cfg up p = trending cfg up (p\<lparr>limit := max 1 (min (limit p) 10)\<rparr>)
   \<and> isl (snd (trending cfg up p)) = (lower (source p) \<notin> allowed)
   \<and> (let L = max 1 (min (limit p) 10);
           sel = filter (\<lambda>m. lower (source p) = ''all'' \<or> lower (source p) = m) adapter_order
       in
         (lower (source p) \<in> allowed \<longrightarrow>
            trending cfg up p =
              (concat (map (\<lambda>m. Invoke m # fst (adapter_with_limit cfg up p L m)) sel),
               Inr \<lparr>success = True, requested_source = lower (source p), response_limit = L,
                    data = concat (map (\<lambda>m. data_of (snd (adapter_with_limit cfg up p L m))) sel),
                    errors = concat (map (\<lambda>m. errors_of m (snd (adapter_with_limit cfg up p L m)))
                               sel)\<rparr>))
         \<and> (lower (source p) = ''google_trends'' \<longrightarrow>
              trending cfg up p =
                (Invoke ''google_trends'' # fst (get_google_trends up L (country p)),
                 Inr \<lparr>success = True, requested_source = ''google_trends'', response_limit = L,
                      data = data_of (snd (get_google_trends up L (country p))),
                      errors = errors_of ''google_trends''
                                 (snd (get_google_trends up L (country p)))\<rparr>))
         \<and> (lower (source p) = ''google_news'' \<longrightarrow>
              trending cfg up p =
                (Invoke ''google_news'' # fst (get_google_news up L (country p) (language p)),
                 Inr \<lparr>success = True, requested_source = ''google_news'', response_limit = L,
                      data = data_of (snd (get_google_news up L (country p) (language p))),
                      errors = errors_of ''google_news''
                                 (snd (get_google_news up L (country p) (language p)))\<rparr>))
         \<and> (lower (source p) = ''reddit'' \<longrightarrow>
              trending cfg up p =
                (Invoke ''reddit'' # fst (get_reddit cfg up L (subreddit p)),
                 Inr \<lparr>success = True, requested_source = ''reddit'', response_limit = L,
                      data = data_of (snd (get_reddit cfg up L (subreddit p))),
                      errors = errors_of ''reddit'' (snd (get_reddit cfg up L (subreddit p)))\<rparr>))
         \<and> (lower (source p) = ''reuters'' \<longrightarrow>
              trending cfg up p =
                (Invoke ''reuters'' # fst (get_reuters up L),
                 Inr \<lparr>success = True, requested_source = ''reuters'', response_limit = L,
                      data = data_of (snd (get_reuters up L)),
                      errors = errors_of ''reuters'' (snd (get_reuters up L))\<rparr>))
         \<and> (lower (source p) = ''flipboard'' \<longrightarrow>
              trending cfg up p =
                (Invoke ''flipboard'' # fst (get_flipboard up L),
                 Inr \<lparr>success = True, requested_source = ''flipboard'', response_limit = L,
                      data = data_of (snd (get_flipboard up L)),
                      errors = errors_of ''flipboard'' (snd (get_flipboard up L))\<rparr>))
         \<and> (\<forall>terms. lower (source p) = ''google_trends''
                \<and> trending_searches up (pn_of (country p)) = Inr terms \<longrightarrow>
              snd (trending cfg up p) =
                Inr \<lparr>success = True, requested_source = ''google_trends'', response_limit = L,
                     data = [\<lparr>result_source = ''google_trends'',
                               items = map (\<lambda>t. \<lparr>title = t, link = '''', published = ''''\<rparr>)
                                         (take (nat L) terms),
                               warning = None\<rparr>],
                     errors = []\<rparr>))"
proof -
  let ?L = "max 1 (min (limit p) 10)"
  have cl: "clamp_limit (limit p) = ?L"
    by (simp add: clamp_limit_def)
  have a: "lower (source p) \<in> allowed \<longrightarrow>
        (\<exists>r. snd (trending cfg up p) = Inr r \<and> response_limit r = max 1 (min (limit p) 10))"
    by (simp add: trending_allowed clamp_limit_def)
  have "clamp_limit (max 1 (min (limit p) 10)) = clamp_limit (limit p)"
    by (simp add: clamp_limit_def)
  then have b: "trending cfg up p = trending cfg up (p\<lparr>limit := max 1 (min (limit p) 10)\<rparr>)"
    by (simp add: trending_def Let_def)
  have c: "isl (snd (trending cfg up p)) = (lower (source p) \<notin> allowed)"
    by (cases "lower (source p) \<in> allowed") (simp_all add: trending_allowed trending_rejected)
  have g: "lower (source p) \<in> allowed \<longrightarrow>
      trending cfg up p =
        (concat (map (\<lambda>m. Invoke m # fst (adapter_with_limit cfg up p ?L m))
           (filter (\<lambda>m. lower (source p) = ''all'' \<or> lower (source p) = m) adapter_order)),
         Inr \<lparr>success = True, requested_source = lower (source p), response_limit = ?L,
              data = concat (map (\<lambda>m. data_of (snd (adapter_with_limit cfg up p ?L m)))
                (filter (\<lambda>m. lower (source p) = ''all'' \<or> lower (source p) = m) adapter_order)),
              errors = concat (map (\<lambda>m. errors_of m (snd (adapter_with_limit cfg up p ?L m)))
                (filter (\<lambda>m. lower (source p) = ''all'' \<or> lower (source p) = m)
                   adapter_order))\<rparr>)"
    by (simp add: trending_allowed adapter_call_limit selected_filter cl)
  have s1: "lower (source p) = ''google_trends'' \<longrightarrow>
      trending cfg up p =
        (Invoke ''google_trends'' # fst (get_google_trends up ?L (country p)),
         Inr \<lparr>success = True, requested_source = ''google_trends'', response_limit = ?L,
              data = data_of (snd (get_google_trends up ?L (country p))),
              errors = errors_of ''google_trends'' (snd (get_google_trends up ?L (country p)))\<rparr>)"
    using trending_single [of "''google_trends''" p cfg up]
    by (simp add: adapter_order_def adapter_call_limit adapter_with_limit_def cl)
  have s2: "lower (source p) = ''google_news'' \<longrightarrow>
      trending cfg up p =
        (Invoke ''google_news'' # fst (get_google_news up ?L (country p) (language p)),
         Inr \<lparr>success = True, requested_source = ''google_news'', response_limit = ?L,
              data = data_of (snd (get_google_news up ?L (country p) (language p))),
              errors = errors_of ''google_news''
                         (snd (get_google_news up ?L (country p) (language p)))\<rparr>)"
    using trending_single [of "''google_news''" p cfg up]
    by (simp add: adapter_order_def adapter_call_limit adapter_with_limit_def cl)
  have s3: "lower (source p) = ''reddit'' \<longrightarrow>
      trending cfg up p =
        (Invoke ''reddit'' # fst (get_reddit cfg up ?L (subreddit p)),
         Inr \<lparr>success = True, requested_source = ''reddit'', response_limit = ?L,
              data = data_of (snd (get_reddit cfg up ?L (subreddit p))),
              errors = errors_of ''reddit'' (snd (get_reddit cfg up ?L (subreddit p)))\<rparr>)"
    using trending_single [of "''reddit''" p cfg up]
    by (simp add: adapter_order_def adapter_call_limit adapter_with_limit_def cl)
  have s4: "lower (source p) = ''reuters'' \<longrightarrow>
      trending cfg up p =
        (Invoke ''reuters'' # fst (get_reuters up ?L),
         Inr \<lparr>success = True, requested_source = ''reuters'', response_limit = ?L,
              data = data_of (snd (get_reuters up ?L)),
              errors = errors_of ''reuters'' (snd (get_reuters up ?L))\<rparr>)"
    using trending_single [of "''reuters''" p cfg up]
    by (simp add: adapter_order_def adapter_call_limit adapter_with_limit_def cl)
  have s5: "lower (source p) = ''flipboard'' \<longrightarrow>
      trending cfg up p =
        (Invoke ''flipboard'' # fst (get_flipboard up ?L),
         Inr \<lparr>success = True, requested_source = ''flipboard'', response_limit = ?L,
              data = data_of (snd (get_flipboard up ?L)),
              errors = errors_of ''flipboard'' (snd (get_flipboard up ?L))\<rparr>)"
    using trending_single [of "''flipboard''" p cfg up]
    by (simp add: adapter_order_def adapter_call_limit adapter_with_limit_def cl)
  have t: "\<forall>terms. lower (source p) = ''google_trends''
         \<and> trending_searches up (pn_of (country p)) = Inr terms \<longrightarrow>
      snd (trending cfg up p) =
        Inr \<lparr>success = True, requested_source = ''google_trends'', response_limit = ?L,
             data = [\<lparr>result_source = ''google_trends'',
                       items = map (\<lambda>t. \<lparr>title = t, link = '''', published = ''''\<rparr>)
                                 (take (nat ?L) terms),
                       warning = None\<rparr>],
             errors = []\<rparr>"
  proof (intro allI impI)
    fix terms
    assume h: "lower (source p) = ''google_trends''
         \<and> trending_searches up (pn_of (country p)) = Inr terms"
    have "0 \<le> ?L" by simp
    then have "snd (get_google_trends up ?L (country p)) =
        Inr \<lparr>result_source = ''google_trends'',
             items = map (\<lambda>t. \<lparr>title = t, link = '''', published = ''''\<rparr>) (take (nat ?L) terms),
             warning = None\<rparr>"
      using h by (simp add: get_google_trends_def Let_def slice_to_take term_item_def [abs_def])
    then show "snd (trending cfg up p) =
        Inr \<lparr>success = True, requested_source = ''google_trends'', response_limit = ?L,
             data = [\<lparr>result_source = ''google_trends'',
                       items = map (\<lambda>t. \<lparr>title = t, link = '''', published = ''''\<rparr>)
                                 (take (nat ?L) terms),
                       warning = None\<rparr>],
             errors = []\<rparr>"
      using s1 h by (simp add: data_of_def errors_of_def)
  qed
  have ex: "clamp_limit n = max 1 (min n 10)"
    "clamp_limit 0 = 1" "clamp_limit 5 = 5" "clamp_limit 999 = 10" "clamp_limit (- 3) = 1"
    by (simp_all add: clamp_limit_def)
  show ?thesis
    unfolding Let_def by (intro conjI ex a b c g s1 s2 s3 s4 s5 t)
qed

theorem clamp_limit_spec_witness:
  "lower (source (default_request ''all'' 0)) \<in> allowed
   \<and> max 1 (min (limit (default_request ''all'' 0)) 10) = 1
   \<and> trending all_keys sample_upstream (default_request ''all'' 0) =
       (concat (map (\<lambda>m. Invoke m # fst (adapter_with_limit all_keys sample_upstream
                                            (default_request ''all'' 0) 1 m)) adapter_order),
        Inr \<lparr>success = True, requested_source = ''all'', response_limit = 1,
             data = [\<lparr>result_source = ''google_trends'',
                       items = [\<lparr>title = ''alpha'', link = '''', published = ''''\<rparr>],
                       warning = None\<rparr>,
                     \<lparr>result_source = ''reddit'',
                       items = [\<lparr>title = ''post'', link = ''http://r'', published = ''''\<rparr>],
                       warning = None\<rparr>],
             errors = [\<lparr>error_source = ''google_news'', error = ''bad feed''\<rparr>,
                       \<lparr>error_source = ''reuters'', error = ''bad feed''\<rparr>,
                       \<lparr>error_source = ''flipboard'', error = ''bad feed''\<rparr>]\<rparr>)
   \<and> RedditHot ''all'' 1 \<in> set (fst (trending all_keys sample_upstream (default_request ''all'' 0)))"
proof -
  let ?p = "default_request ''all'' 0"
  let ?sel = "filter (\<lambda>m. lower (source ?p) = ''all'' \<or> lower (source ?p) = m) adapter_order"
  let ?L = "max 1 (min (limit ?p) 10)"
  have ok: "lower (source ?p) \<in> allowed"
    by (rule sample_all_allowed)
  have l: "?L = 1"
    by (simp add: default_request_def)
  have src: "lower (source ?p) = ''all''"
    by (simp add: default_request_def lower_samples)
  from clamp_limit_spec [of 0 ?p all_keys sample_upstream]
  have "lower (source ?p) \<in> allowed \<longrightarrow>
      trending all_keys sample_upstream ?p =
        (concat (map (\<lambda>m. Invoke m # fst (adapter_with_limit all_keys sample_upstream ?p ?L m))
           ?sel),
         Inr \<lparr>success = True, requested_source = lower (source ?p), response_limit = ?L,
              data = concat (map (\<lambda>m. data_of (snd (adapter_with_limit all_keys sample_upstream
                                                     ?p ?L m))) ?sel),
              errors = concat (map (\<lambda>m. errors_of m (snd (adapter_with_limit all_keys
                                                           sample_upstream ?p ?L m))) ?sel)\<rparr>)"
    unfolding Let_def by (elim conjE)
  with ok have "fst (trending all_keys sample_upstream ?p) =
      concat (map (\<lambda>m. Invoke m # fst (adapter_with_limit all_keys sample_upstream ?p ?L m)) ?sel)"
    by simp
  then have f: "fst (trending all_keys sample_upstream ?p) =
      concat (map (\<lambda>m. Invoke m # fst (adapter_with_limit all_keys sample_upstream ?p 1 m))
        adapter_order)"
    unfolding l src by simp
  have r: "RedditHot ''all'' 1 \<in> set (fst (trending all_keys sample_upstream ?p))"
    by (simp add: sample_zero_response)
  have e: "trending all_keys sample_upstream ?p =
       (concat (map (\<lambda>m. Invoke m # fst (adapter_with_limit all_keys sample_upstream ?p 1 m))
          adapter_order),
        Inr \<lparr>success = True, requested_source = ''all'', response_limit = 1,
             data = [\<lparr>result_source = ''google_trends'',
                       items = [\<lparr>title = ''alpha'', link = '''', published = ''''\<rparr>],
                       warning = None\<rparr>,
                     \<lparr>result_source = ''reddit'',
                       items = [\<lparr>title = ''post'', link = ''http://r'', published = ''''\<rparr>],
                       warning = None\<rparr>],
             errors = [\<lparr>error_source = ''google_news'', error = ''bad feed''\<rparr>,
                       \<lparr>error_source = ''reuters'', error = ''bad feed''\<rparr>,
                       \<lparr>error_source = ''flipboard'', error = ''bad feed''\<rparr>]\<rparr>)"
  proof (rule prod_eqI)
    show "fst (trending all_keys sample_upstream ?p) = fst
       (concat (map (\<lambda>m. Invoke m # fst (adapter_with_limit all_keys sample_upstream ?p 1 m))
          adapter_order),
        Inr \<lparr>success = True, requested_source = ''all'', response_limit = 1,
             data = [\<lparr>result_source = ''google_trends'',
                       items = [\<lparr>title = ''alpha'', link = '''', published = ''''\<rparr>],
                       warning = None\<rparr>,
                     \<lparr>result_source = ''reddit'',
                       items = [\<lparr>title = ''post'', link = ''http://r'', published = ''''\<rparr>],
                       warning = None\<rparr>],
             errors = [\<lparr>error_source = ''google_news'', error = ''bad feed''\<rparr>,
                       \<lparr>error_source = ''reuters'', error = ''bad feed''\<rparr>,
                       \<lparr>error_source = ''flipboard'', error = ''bad feed''\<rparr>]\<rparr>)"
      unfolding fst_conv by (rule f)
  next
    show "snd (trending all_keys sample_upstream ?p) = snd
       (concat (map (\<lambda>m. Invoke m # fst (adapter_with_limit all_keys sample_upstream ?p 1 m))
          adapter_order),
        Inr \<lparr>success = True, requested_source = ''all'', response_limit = 1,
             data = [\<lparr>result_source = ''google_trends'',
                       items = [\<lparr>title = ''alpha'', link = '''', published = ''''\<rparr>],
                       warning = None\<rparr>,
                     \<lparr>result_source = ''reddit'',
                       items = [\<lparr>title = ''post'', link = ''http://r'', published = ''''\<rparr>],
                       warning = None\<rparr>],
             errors = [\<lparr>error_source = ''google_news'', error = ''bad feed''\<rparr>,
                       \<lparr>error_source = ''reuters'', error = ''bad feed''\<rparr>,
                       \<lparr>error_source = ''flipboard'', error = ''bad feed''\<rparr>]\<rparr>)"
      by (simp add: sample_zero_response)
  qed
  show ?thesis
    by (intro conjI ok l e r)
qed

text \<open>
  C4. A source whose lower-cased form is not one of \<open>all\<close>, \<open>google_trends\<close>,
  \<open>google_news\<close>, \<open>reddit\<close>, \<open>reuters\<close>, \<open>flipboard\<close> makes the trending endpoint
  raise the HTTP error 400 \<open>Invalid source\<close> with no call made at all; a source whose
  lower-cased form is one of them is never rejected.
\<close>

theorem invalid_source_rejected:
  "(lower (source p) \<notin> allowed \<longrightarrow>
      trending cfg up p = ([], Inl (HTTPException 400 ''Invalid source'')))
   \<and> (lower (source p) \<in> allowed \<longrightarrow> (\<exists>r. snd (trending cfg up p) = Inr r))"
  by (simp add: trending_allowed trending_rejected)

theorem invalid_source_rejected_witness:
  "lower (source (default_request ''twitter'' 5)) \<notin> allowed
   \<and> trending all_keys sample_upstream (default_request ''twitter'' 5)
        = ([], Inl (HTTPException 400 ''Invalid source''))
   \<and> lower (source (default_request ''ReDdIt'' 5)) \<in> allowed
   \<and> (\<exists>r. snd (trending all_keys sample_upstream (default_request ''ReDdIt'' 5)) = Inr r)"
  using invalid_source_rejected [of "default_request ''twitter'' 5" all_keys sample_upstream]
    invalid_source_rejected [of "default_request ''ReDdIt'' 5" all_keys sample_upstream]
  by (simp add: default_request_def lower_samples allowed_def)

section \<open>Claims about the fan-out\<close>

text \<open>
  C1. For every trending request that passes the source check, the adapter names in
  \<open>data\<close> and in \<open>errors\<close> partition the adapters the source selects (all five for
  \<open>all\<close>, the named one otherwise): no name stands twice in the two lists together, the
  names of the two lists are exactly the selected adapters, and the two lists have five
  entries together for \<open>all\<close> and one otherwise.
\<close>

theorem trending_partition:
  assumes "lower (source p) \<in> allowed"
  shows "\<exists>r. snd (trending cfg up p) = Inr r
     \<and> distinct (map result_source (data r) @ map error_source (errors r))
     \<and> set (map result_source (data r)) \<union> set (map error_source (errors r))
         = {n \<in> set adapter_order. lower (source p) = ''all'' \<or> lower (source p) = n}
     \<and> length (data r) + length (errors r) = (if lower (source p) = ''all'' then 5 else 1)"
proof -
  let ?src = "lower (source p)"
  let ?sel = "filter (selected ?src) adapter_order"
  let ?out = "\<lambda>n. snd (adapter_call cfg up p n)"
  let ?data = "concat (map (\<lambda>n. data_of (?out n)) ?sel)"
  let ?errors = "concat (map (\<lambda>n. errors_of n (?out n)) ?sel)"
  have dn: "map result_source ?data = filter (\<lambda>n. \<not> isl (?out n)) ?sel"
    by (rule data_names [OF selected_sources])
  have en: "map error_source ?errors = filter (\<lambda>n. isl (?out n)) ?sel"
    by (rule error_names)
  have dis: "distinct ?sel"
    using distinct_adapter_order by (rule distinct_filter)
  have d: "distinct (map result_source ?data @ map error_source ?errors)"
    unfolding dn en using dis by (simp only: distinct_append distinct_filter) auto
  have s: "set (map result_source ?data) \<union> set (map error_source ?errors)
         = {n \<in> set adapter_order. ?src = ''all'' \<or> ?src = n}"
    unfolding dn en by (auto simp: selected_def)
  have "length (map result_source ?data) + length (map error_source ?errors) = length ?sel"
    unfolding dn en using sum_length_filter_compl [of "\<lambda>n. isl (?out n)" ?sel] by simp
  then have l: "length ?data + length ?errors = (if ?src = ''all'' then 5 else 1)"
    by (simp only: length_map selected_count [OF assms])
  show ?thesis
    using d s l by (simp add: trending_allowed [OF assms])
qed

theorem trending_partition_witness:
  "lower (source (default_request ''all'' 2)) \<in> allowed
   \<and> (\<exists>r. snd (trending all_keys sample_upstream (default_request ''all'' 2)) = Inr r
        \<and> map result_source (data r) = [''google_trends'', ''reddit'']
        \<and> map error_source (errors r) = [''google_news'', ''reuters'', ''flipboard'']
        \<and> distinct (map result_source (data r) @ map error_source (errors r))
        \<and> length (data r) + length (errors r) = 5)"
  using trending_partition [of "default_request ''all'' 2" all_keys sample_upstream]
  by (simp add: sample_all_response sample_all_allowed)

text \<open>
  C2. For every selected adapter of a request that passes the source check: when its call
  raises \<open>e\<close>, exactly the record with its name and \<open>str(e)\<close> stands for it in
  \<open>errors\<close> and nothing of it in \<open>data\<close>; when its call returns, exactly its result
  stands for it in \<open>data\<close> and nothing of it in \<open>errors\<close>. Whatever the other adapters
  do, every selected adapter is invoked. Each single \<open>safe_call\<close> appends one error
  record on a raise and one result on a return, and leaves the other list as it was.
\<close>

theorem adapter_fault_isolation:
  assumes "lower (source p) \<in> allowed" and "n \<in> set adapter_order"
    and "lower (source p) = ''all'' \<or> lower (source p) = n"
  shows "\<exists>r. snd (trending cfg up p) = Inr r
     \<and> (\<forall>e. snd (adapter_call cfg up p n) = Inl e \<longrightarrow>
           filter (\<lambda>x. error_source x = n) (errors r) = [\<lparr>error_source = n, error = str_of e\<rparr>]
           \<and> filter (\<lambda>x. result_source x = n) (data r) = [])
     \<and> (\<forall>x. snd (adapter_call cfg up p n) = Inr x \<longrightarrow>
           filter (\<lambda>y. result_source y = n) (data r) = [x]
           \<and> filter (\<lambda>y. error_source y = n) (errors r) = [])
     \<and> invoked (fst (trending cfg up p))
         = filter (\<lambda>m. lower (source p) = ''all'' \<or> lower (source p) = m) adapter_order
     \<and> (\<forall>fn name st evs e. fn () = (evs, Inl e) \<longrightarrow>
           results (safe_call fn name st) = results st
           \<and> errors_so_far (safe_call fn name st)
               = errors_so_far st @ [\<lparr>error_source = name, error = str_of e\<rparr>])
     \<and> (\<forall>fn name st evs x. fn () = (evs, Inr x) \<longrightarrow>
           results (safe_call fn name st) = results st @ [x]
           \<and> errors_so_far (safe_call fn name st) = errors_so_far st)"
proof -
  let ?src = "lower (source p)"
  let ?sel = "filter (selected ?src) adapter_order"
  let ?out = "\<lambda>n. snd (adapter_call cfg up p n)"
  let ?data = "concat (map (\<lambda>n. data_of (?out n)) ?sel)"
  let ?errors = "concat (map (\<lambda>n. errors_of n (?out n)) ?sel)"
  have dis: "distinct ?sel"
    using distinct_adapter_order by (rule distinct_filter)
  have mem: "n \<in> set ?sel"
    using assms(2,3) by (simp add: selected_def)
  have de: "filter (\<lambda>x. result_source x = n) ?data = data_of (?out n)"
    by (rule data_entry [OF selected_sources dis mem])
  have ee: "filter (\<lambda>x. error_source x = n) ?errors = errors_of n (?out n)"
    by (rule error_entry [OF dis mem])
  have inv: "invoked (fst (trending cfg up p)) = filter (\<lambda>m. ?src = ''all'' \<or> ?src = m) adapter_order"
    by (simp add: trending_allowed [OF assms(1)] invoked_names [OF adapter_call_invoked]
        selected_filter)
  let ?r = "\<lparr>success = True, requested_source = ?src, response_limit = clamp_limit (limit p),
           data = ?data, errors = ?errors\<rparr>"
  have a: "\<forall>e. ?out n = Inl e \<longrightarrow>
           filter (\<lambda>x. error_source x = n) (errors ?r) = [\<lparr>error_source = n, error = str_of e\<rparr>]
           \<and> filter (\<lambda>x. result_source x = n) (data ?r) = []"
  proof (intro allI impI)
    fix e
    assume "?out n = Inl e"
    then have "errors_of n (?out n) = [\<lparr>error_source = n, error = str_of e\<rparr>]"
      and "data_of (?out n) = []"
      by (simp_all add: data_of_def errors_of_def)
    then show "filter (\<lambda>x. error_source x = n) (errors ?r) = [\<lparr>error_source = n, error = str_of e\<rparr>]
           \<and> filter (\<lambda>x. result_source x = n) (data ?r) = []"
      using de ee by simp
  qed
  have b: "\<forall>x. ?out n = Inr x \<longrightarrow>
           filter (\<lambda>y. result_source y = n) (data ?r) = [x]
           \<and> filter (\<lambda>y. error_source y = n) (errors ?r) = []"
  proof (intro allI impI)
    fix x
    assume "?out n = Inr x"
    then have "errors_of n (?out n) = []" and "data_of (?out n) = [x]"
      by (simp_all add: data_of_def errors_of_def)
    then show "filter (\<lambda>y. result_source y = n) (data ?r) = [x]
           \<and> filter (\<lambda>y. error_source y = n) (errors ?r) = []"
      using de ee by simp
  qed
  have c: "\<forall>fn name st evs e. fn () = (evs, Inl e) \<longrightarrow>
           results (safe_call fn name st) = results st
           \<and> errors_so_far (safe_call fn name st)
               = errors_so_far st @ [\<lparr>error_source = name, error = str_of e\<rparr>]"
    by (simp add: safe_call_raised)
  have d: "\<forall>fn name st evs x. fn () = (evs, Inr x) \<longrightarrow>
           results (safe_call fn name st) = results st @ [x]
           \<and> errors_so_far (safe_call fn name st) = errors_so_far st"
    by (simp add: safe_call_returned)
  have r: "snd (trending cfg up p) = Inr ?r"
    by (simp add: trending_allowed [OF assms(1)])
  show ?thesis
    by (intro exI [of _ ?r] conjI r a b inv c d)
qed

theorem adapter_fault_isolation_witness:
  "lower (source (default_request ''all'' 2)) \<in> allowed
   \<and> ''google_news'' \<in> set adapter_order
   \<and> snd (adapter_call all_keys sample_upstream (default_request ''all'' 2) ''google_news'')
       = Inl (PyException ''bad feed'')
   \<and> (\<exists>r. snd (trending all_keys sample_upstream (default_request ''all'' 2)) = Inr r
        \<and> filter (\<lambda>x. error_source x = ''google_news'') (errors r)
            = [\<lparr>error_source = ''google_news'', error = ''bad feed''\<rparr>]
        \<and> filter (\<lambda>x. result_source x = ''google_news'') (data r) = []
        \<and> map result_source (data r) = [''google_trends'', ''reddit''])
   \<and> invoked (fst (trending all_keys sample_upstream (default_request ''all'' 2)))
       = [''google_trends'', ''google_news'', ''reddit'', ''reuters'', ''flipboard'']"
proof -
  have n: "''google_news'' \<in> set adapter_order"
    by (simp add: adapter_order_def)
  have s: "lower (source (default_request ''all'' 2)) = ''all''"
    by (simp add: default_request_def lower_samples)
  from adapter_fault_isolation [OF sample_all_allowed n, of 2 all_keys sample_upstream] s
  show ?thesis
    using n by (simp add: sample_all_response allowed_def sample_outcomes)
qed

text \<open>
  C5. For every trending request that passes the source check, the names in \<open>data\<close>,
  the names in \<open>errors\<close> and the invocations follow the one fixed order google_trends,
  google_news, reddit, reuters, flipboard, restricted to the selected adapters that
  returned, that raised, and that were selected; the order is a constant and does not
  depend on the request.
\<close>

theorem fixed_adapter_order:
  assumes "lower (source p) \<in> allowed"
  shows "\<exists>r. snd (trending cfg up p) = Inr r
     \<and> map result_source (data r)
         = filter (\<lambda>n. (lower (source p) = ''all'' \<or> lower (source p) = n)
                       \<and> \<not> isl (snd (adapter_call cfg up p n))) adapter_order
     \<and> map error_source (errors r)
         = filter (\<lambda>n. (lower (source p) = ''all'' \<or> lower (source p) = n)
                       \<and> isl (snd (adapter_call cfg up p n))) adapter_order
     \<and> invoked (fst (trending cfg up p))
         = filter (\<lambda>n. lower (source p) = ''all'' \<or> lower (source p) = n) adapter_order
     \<and> subseq (map result_source (data r)) adapter_order
     \<and> subseq (map error_source (errors r)) adapter_order
     \<and> adapter_order = [''google_trends'', ''google_news'', ''reddit'', ''reuters'', ''flipboard'']"
proof -
  let ?src = "lower (source p)"
  let ?sel = "filter (selected ?src) adapter_order"
  let ?out = "\<lambda>n. snd (adapter_call cfg up p n)"
  let ?data = "concat (map (\<lambda>n. data_of (?out n)) ?sel)"
  let ?errors = "concat (map (\<lambda>n. errors_of n (?out n)) ?sel)"
  let ?r = "\<lparr>success = True, requested_source = ?src, response_limit = clamp_limit (limit p),
           data = ?data, errors = ?errors\<rparr>"
  have dn: "map result_source (data ?r)
      = filter (\<lambda>n. (?src = ''all'' \<or> ?src = n) \<and> \<not> isl (?out n)) adapter_order"
    by (simp add: data_names [OF selected_sources] selected_def conj_commute)
  have en: "map error_source (errors ?r)
      = filter (\<lambda>n. (?src = ''all'' \<or> ?src = n) \<and> isl (?out n)) adapter_order"
    by (simp add: error_names selected_def conj_commute)
  have inv: "invoked (fst (trending cfg up p)) = filter (\<lambda>m. ?src = ''all'' \<or> ?src = m) adapter_order"
    by (simp add: trending_allowed [OF assms] invoked_names [OF adapter_call_invoked]
        selected_filter)
  have sd: "subseq (map result_source (data ?r)) adapter_order"
    unfolding dn by (rule subseq_filter_left)
  have se: "subseq (map error_source (errors ?r)) adapter_order"
    unfolding en by (rule subseq_filter_left)
  have r: "snd (trending cfg up p) = Inr ?r"
    by (simp add: trending_allowed [OF assms])
  show ?thesis
    by (intro exI [of _ ?r] conjI r dn en inv sd se adapter_order_def)
qed

theorem fixed_adapter_order_witness:
  "lower (source (default_request ''all'' 2)) \<in> allowed
   \<and> (\<exists>r. snd (trending all_keys sample_upstream (default_request ''all'' 2)) = Inr r
        \<and> map result_source (data r) = [''google_trends'', ''reddit'']
        \<and> map error_source (errors r) = [''google_news'', ''reuters'', ''flipboard'']
        \<and> subseq (map result_source (data r)) adapter_order
        \<and> subseq (map error_source (errors r)) adapter_order)"
  using fixed_adapter_order [of "default_request ''all'' 2" all_keys sample_upstream]
  by (simp add: sample_all_response sample_all_allowed)

section \<open>Claims about the response assembly\<close>

text \<open>
  C6. A trending request that passes the source check is answered with \<open>success\<close> true,
  also when every adapter raised (then \<open>data\<close> is empty and the failures are in
  \<open>errors\<close>); the only error the handler raises is the 400 of the source check.
\<close>

theorem success_always_true:
  "(lower (source p) \<in> allowed \<longrightarrow>
      (\<exists>r. snd (trending cfg up p) = Inr r \<and> success r
         \<and> ((\<forall>n \<in> set adapter_order. isl (snd (adapter_call cfg up p n))) \<longrightarrow>
               data r = [] \<and> errors r \<noteq> [])))
   \<and> (\<forall>e. snd (trending cfg up p) = Inl e \<longrightarrow>
         e = HTTPException 400 ''Invalid source'' \<and> lower (source p) \<notin> allowed)"
proof -
  have a: "\<exists>r. snd (trending cfg up p) = Inr r \<and> success r
         \<and> ((\<forall>n \<in> set adapter_order. isl (snd (adapter_call cfg up p n))) \<longrightarrow>
               data r = [] \<and> errors r \<noteq> [])"
    if ok: "lower (source p) \<in> allowed"
  proof -
    let ?sel = "filter (selected (lower (source p))) adapter_order"
    let ?out = "\<lambda>n. snd (adapter_call cfg up p n)"
    from allowed_cases [OF ok]
    have ne: "?sel \<noteq> []"
      by (auto simp: selected_def filter_empty_conv adapter_order_def)
    have d: "concat (map (\<lambda>n. data_of (?out n)) ?sel) = []"
      if "\<forall>n \<in> set adapter_order. isl (?out n)"
      using that by (auto simp: data_of_def split: sum.splits)
    have e: "concat (map (\<lambda>n. errors_of n (?out n)) ?sel) \<noteq> []"
      if "\<forall>n \<in> set adapter_order. isl (?out n)"
    proof
      assume "concat (map (\<lambda>n. errors_of n (?out n)) ?sel) = []"
      then have "map error_source (concat (map (\<lambda>n. errors_of n (?out n)) ?sel)) = []"
        by (simp only: list.map)
      moreover have "map error_source (concat (map (\<lambda>n. errors_of n (?out n)) ?sel)) = ?sel"
        using that by (auto simp: error_names intro: filter_cong)
      ultimately show False
        using ne by simp
    qed
    show ?thesis
      using d e by (simp add: trending_allowed [OF ok])
  qed
  have b: "\<forall>e. snd (trending cfg up p) = Inl e \<longrightarrow>
         e = HTTPException 400 ''Invalid source'' \<and> lower (source p) \<notin> allowed"
    by (cases "lower (source p) \<in> allowed") (simp_all add: trending_allowed trending_rejected)
  show ?thesis
    using a b by blast
qed

theorem success_always_true_witness:
  "lower (source (default_request ''all'' 5)) \<in> allowed
   \<and> list_all (\<lambda>n. isl (snd (adapter_call all_keys failing_upstream (default_request ''all'' 5) n)))
        adapter_order
   \<and> (\<exists>r. snd (trending all_keys failing_upstream (default_request ''all'' 5)) = Inr r
          \<and> success r \<and> data r = [] \<and> errors r \<noteq> [])"
proof -
  have ok: "lower (source (default_request ''all'' 5)) \<in> allowed"
    by (simp add: default_request_def lower_samples allowed_def)
  have fails: "\<forall>n \<in> set adapter_order.
      isl (snd (adapter_call all_keys failing_upstream (default_request ''all'' 5) n))"
    using failing_upstream_fails [of all_keys]
    by (auto simp: all_keys_def truthy_def)
  from success_always_true [of "default_request ''all'' 5" all_keys failing_upstream] ok fails
  show ?thesis
    by (auto simp: list_all_iff)
qed

section \<open>Claims about the adapters\<close>

text \<open>
  C7. When the client id or the client secret of the forum is absent (unset or empty), the
  reddit adapter makes no upstream call and returns the source \<open>reddit\<close> with no items
  and a warning, without raising; a trending request for the source \<open>reddit\<close> then has
  exactly this one result in \<open>data\<close> and nothing in \<open>errors\<close>.
\<close>

theorem reddit_soft_degrade:
  assumes "\<not> truthy (REDDIT_CLIENT_ID cfg) \<or> \<not> truthy (REDDIT_CLIENT_SECRET cfg)"
  shows "get_reddit cfg up lim name =
           ([], Inr \<lparr>result_source = ''reddit'', items = [],
                      warning = Some ''Reddit keys missing''\<rparr>)
         \<and> (lower (source p) = ''reddit'' \<longrightarrow>
               snd (trending cfg up p) =
                 Inr \<lparr>success = True, requested_source = ''reddit'',
                      response_limit = clamp_limit (limit p),
                      data = [\<lparr>result_source = ''reddit'', items = [],
                                warning = Some ''Reddit keys missing''\<rparr>],
                      errors = []\<rparr>)"
proof -
  have g: "get_reddit cfg up lim name =
           ([], Inr \<lparr>result_source = ''reddit'', items = [],
                      warning = Some ''Reddit keys missing''\<rparr>)" for lim name
    using assms by (auto simp: get_reddit_def)
  have "snd (trending cfg up p) =
                 Inr \<lparr>success = True, requested_source = ''reddit'',
                      response_limit = clamp_limit (limit p),
                      data = [\<lparr>result_source = ''reddit'', items = [],
                                warning = Some ''Reddit keys missing''\<rparr>],
                      errors = []\<rparr>"
    if r: "lower (source p) = ''reddit''"
  proof -
    have ok: "lower (source p) \<in> allowed"
      by (simp add: r allowed_def)
    show ?thesis
      by (simp add: trending_allowed [OF ok] r selected_def adapter_order_def adapter_call_def
          g data_of_def errors_of_def)
  qed
  with g show ?thesis by blast
qed

theorem reddit_soft_degrade_witness:
  "REDDIT_CLIENT_ID no_keys = None
   \<and> lower (source (default_request ''reddit'' 5)) = ''reddit''
   \<and> snd (trending no_keys failing_upstream (default_request ''reddit'' 5)) =
        Inr \<lparr>success = True, requested_source = ''reddit'', response_limit = 5,
             data = [\<lparr>result_source = ''reddit'', items = [],
                       warning = Some ''Reddit keys missing''\<rparr>],
             errors = []\<rparr>"
proof -
  have a: "\<not> truthy (REDDIT_CLIENT_ID no_keys) \<or> \<not> truthy (REDDIT_CLIENT_SECRET no_keys)"
    by (simp add: no_keys_def truthy_def)
  have b: "lower (source (default_request ''reddit'' 5)) = ''reddit''"
    by (simp add: default_request_def lower_samples)
  from reddit_soft_degrade [OF a, of failing_upstream 5 "''all''" "default_request ''reddit'' 5"] b
  have "snd (trending no_keys failing_upstream (default_request ''reddit'' 5)) =
        Inr \<lparr>success = True, requested_source = ''reddit'',
             response_limit = clamp_limit (limit (default_request ''reddit'' 5)),
             data = [\<lparr>result_source = ''reddit'', items = [],
                       warning = Some ''Reddit keys missing''\<rparr>],
             errors = []\<rparr>"
    by blast
  then show ?thesis
    using b by (simp add: default_request_def clamp_limit_def no_keys_def)
qed

text \<open>
  C8. The structured-trends adapter looks the upper-cased country code up in the table
  IN to india, US to united_states, GB to united_kingdom, CA to canada, AU to australia,
  and takes the region india for every code the table does not have; the lookup itself
  never raises. It asks the provider for that region and wraps each of the first
  \<open>limit\<close> terms \<open>t\<close> as the item with the title \<open>t\<close> and an empty link and
  publication date.
\<close>

theorem google_trends_region:
  "pn_of ''IN'' = ''india'' \<and> pn_of ''US'' = ''united_states''
   \<and> pn_of ''GB'' = ''united_kingdom'' \<and> pn_of ''CA'' = ''canada''
   \<and> pn_of ''AU'' = ''australia''
   \<and> (\<forall>r. map_of pn_map (upper c) = Some r \<longrightarrow> pn_of c = r)
   \<and> (upper c \<notin> {''IN'', ''US'', ''GB'', ''CA'', ''AU''} \<longrightarrow> pn_of c = ''india'')
   \<and> fst (get_google_trends up lim c) = [TrendingSearches (pn_of c)]
   \<and> (\<forall>e. trending_searches up (pn_of c) = Inl e \<longrightarrow> snd (get_google_trends up lim c) = Inl e)
   \<and> (\<forall>terms. trending_searches up (pn_of c) = Inr terms \<and> 0 \<le> lim \<longrightarrow>
         snd (get_google_trends up lim c) =
           Inr \<lparr>result_source = ''google_trends'',
                items = map (\<lambda>t. \<lparr>title = t, link = '''', published = ''''\<rparr>)
                          (take (nat lim) terms),
                warning = None\<rparr>)"
proof -
  have miss: "upper c \<notin> {''IN'', ''US'', ''GB'', ''CA'', ''AU''} \<longrightarrow> pn_of c = ''india''"
    using pn_of_miss [of c] by (simp add: pn_map_def)
  have run: "\<forall>terms. trending_searches up (pn_of c) = Inr terms \<and> 0 \<le> lim \<longrightarrow>
         snd (get_google_trends up lim c) =
           Inr \<lparr>result_source = ''google_trends'',
                items = map (\<lambda>t. \<lparr>title = t, link = '''', published = ''''\<rparr>)
                          (take (nat lim) terms),
                warning = None\<rparr>"
    by (simp add: get_google_trends_def Let_def slice_to_take term_item_def [abs_def])
  have raise: "\<forall>e. trending_searches up (pn_of c) = Inl e \<longrightarrow>
      snd (get_google_trends up lim c) = Inl e"
    by (simp add: get_google_trends_def Let_def)
  have ev: "fst (get_google_trends up lim c) = [TrendingSearches (pn_of c)]"
    by (simp add: get_google_trends_def Let_def)
  show ?thesis
    using miss run raise ev pn_of_hit [of c] by (simp add: pn_of_table)
qed

theorem google_trends_region_witness:
  "upper ''ZZ'' \<notin> {''IN'', ''US'', ''GB'', ''CA'', ''AU''} \<and> pn_of ''ZZ'' = ''india''
   \<and> trending_searches sample_upstream (pn_of ''ZZ'') = Inr [''alpha'', ''beta'', ''gamma'']
   \<and> snd (get_google_trends sample_upstream 2 ''ZZ'') =
        Inr \<lparr>result_source = ''google_trends'',
             items = [\<lparr>title = ''alpha'', link = '''', published = ''''\<rparr>,
                      \<lparr>title = ''beta'', link = '''', published = ''''\<rparr>],
             warning = None\<rparr>"
proof -
  have a: "upper ''ZZ'' \<notin> {''IN'', ''US'', ''GB'', ''CA'', ''AU''}"
    by (simp add: upper_samples)
  have b: "trending_searches sample_upstream (pn_of ''ZZ'') = Inr [''alpha'', ''beta'', ''gamma'']"
    by (simp add: sample_upstream_def)
  have t: "take (nat 2) [''alpha'', ''beta'', ''gamma''] = [''alpha'', ''beta'']"
    by code_simp
  from google_trends_region [of "''ZZ''" sample_upstream 2] a b
  have "pn_of ''ZZ'' = ''india'' \<and> snd (get_google_trends sample_upstream 2 ''ZZ'') =
           Inr \<lparr>result_source = ''google_trends'',
                items = map (\<lambda>t. \<lparr>title = t, link = '''', published = ''''\<rparr>)
                          (take (nat 2) [''alpha'', ''beta'', ''gamma'']),
                warning = None\<rparr>"
    by simp
  then show ?thesis
    using a b by (simp add: t)
qed

text \<open>
  C10. The region the structured-trends adapter selects does not depend on the letter case
  of the country: a country and its upper-cased form give the same region and the same
  adapter outcome, and so do any two countries with the same upper-cased form; \<open>us\<close>
  and \<open>US\<close> both give united_states.
\<close>

theorem region_case_invariant:
  "pn_of c = pn_of (upper c)
   \<and> get_google_trends up lim c = get_google_trends up lim (upper c)
   \<and> (upper c = upper c' \<longrightarrow> pn_of c = pn_of c')
   \<and> pn_of ''us'' = ''united_states'' \<and> pn_of ''US'' = ''united_states''"
  by (simp add: pn_of_def get_google_trends_def upper_idem pn_map_def upper_samples)

theorem region_case_invariant_witness:
  "upper ''us'' = upper ''US'' \<and> pn_of ''us'' = pn_of ''US'' \<and> pn_of ''us'' \<noteq> ''india''"
  using region_case_invariant [of "''us''" failing_upstream 5 "''US''"]
  by (simp add: upper_samples)

section \<open>Claims about the image endpoint\<close>

text \<open>
  C9, as stated: every image request with an empty prompt fails with the HTTP error 400.
  This fails when the image provider's key is not configured: the handler tests the key
  first, and raises the HTTP error 500.
\<close>

theorem empty_prompt_counterexample:
  "generate_image no_keys failing_upstream \<lparr>prompt = '''', orientation = ''landscape''\<rparr> =
     ([], Inl (HTTPException 500 ''PEXELS_API_KEY missing in Render ENV''))
   \<and> snd (generate_image no_keys failing_upstream \<lparr>prompt = '''', orientation = ''landscape''\<rparr>)
       \<noteq> Inl (HTTPException 400 ''Prompt is required'')"
  by (simp add: generate_image_def no_keys_def truthy_def)

text \<open>
  C9, amended. For every image request whose prompt is the empty string: when the image
  provider's key is configured the handler raises the HTTP error 400
  \<open>Prompt is required\<close>, when the key is not configured it raises the HTTP error 500;
  in both cases it makes no upstream call.
\<close>

theorem empty_prompt_rejected:
  "prompt payload = '''' \<longrightarrow>
     (truthy (PEXELS_API_KEY cfg) \<longrightarrow>
        generate_image cfg up payload = ([], Inl (HTTPException 400 ''Prompt is required'')))
     \<and> (\<not> truthy (PEXELS_API_KEY cfg) \<longrightarrow>
        generate_image cfg up payload =
          ([], Inl (HTTPException 500 ''PEXELS_API_KEY missing in Render ENV'')))"
  by (simp add: generate_image_def)

theorem empty_prompt_rejected_witness:
  "prompt \<lparr>prompt = '''', orientation = ''landscape''\<rparr> = ''''
   \<and> truthy (PEXELS_API_KEY all_keys)
   \<and> generate_image all_keys failing_upstream \<lparr>prompt = '''', orientation = ''landscape''\<rparr> =
        ([], Inl (HTTPException 400 ''Prompt is required''))"
  using empty_prompt_rejected [of "\<lparr>prompt = '''', orientation = ''landscape''\<rparr>" all_keys
      failing_upstream]
  by (simp add: all_keys_def truthy_def)

end
